theory Spec2Isabelle
  imports Main "HOL-Library.Sublist"
begin

section \<open>The FlipHTML5 downloader (tools/fliphtml5-downloader.js)\<close>

text \<open>
  A shallow embedding of the offline mirroring script. JavaScript strings are modelled
  as \<^typ>\<open>string\<close>, one \<^typ>\<open>char\<close> per code unit (code units below 256). Every
  effect of the script is explicit: the network is a function from the history of
  earlier requests and a URL to an outcome, the disk is the set of paths that exist,
  and each function that performs effects takes the \<open>world\<close> and returns the new one.
  A JavaScript exception is the \<open>Inl\<close> branch of a sum, \<open>null\<close> and \<open>undefined\<close> are
  \<open>None\<close>.
\<close>

subsection \<open>Configuration\<close>

definition CONFIG_maxRetries :: nat where
  "CONFIG_maxRetries = 3"

definition CONFIG_retryDelay :: nat where
  "CONFIG_retryDelay = 1000"

definition CONFIG_concurrentDownloads :: nat where
  "CONFIG_concurrentDownloads = 5"

subsection \<open>The world: network, disk and timers\<close>

text \<open>
  \<open>fetched\<close> is the log of \<open>fetchUrl\<close> calls, oldest first; \<open>slept\<close> is the log of the
  delays (milliseconds) the script has waited through \<open>setTimeout\<close>; \<open>disk\<close> holds the
  paths that exist. One call of \<open>fetchUrl\<close> is one retrieval, its redirect chain included;
  the network decides its outcome from the URL and from everything requested before:
  \<open>Inl message\<close> is a rejected promise, \<open>Inr body\<close> the response data.
\<close>

record world =
  disk :: "string set"
  fetched :: "string list"
  slept :: "nat list"

type_synonym network = "string list \<Rightarrow> string \<Rightarrow> string + string"

definition fetchUrl :: "network \<Rightarrow> string \<Rightarrow> world \<Rightarrow> (string + string) \<times> world" where
  "fetchUrl net targetUrl w =
     (net (fetched w) targetUrl, w\<lparr>fetched := fetched w @ [targetUrl]\<rparr>)"

definition setTimeout :: "nat \<Rightarrow> world \<Rightarrow> world" where
  "setTimeout ms w = w\<lparr>slept := slept w @ [ms]\<rparr>"

subsection \<open>fetchWithRetry\<close>

text \<open>
  The \<open>for\<close> loop of \<open>fetchWithRetry\<close>, from loop index \<open>i\<close>. The result is
  \<open>Inl error\<close> when the last attempt's error is rethrown, \<open>Inr (Some body)\<close> when an
  attempt succeeds, and \<open>Inr None\<close> (\<open>undefined\<close>) when the loop body never runs.
\<close>

function fetchWithRetry_loop ::
  "network \<Rightarrow> string \<Rightarrow> nat \<Rightarrow> nat \<Rightarrow> world \<Rightarrow> (string + string option) \<times> world" where
  "fetchWithRetry_loop net targetUrl retries i w =
     (if i < retries then
        (let (r, w1) = fetchUrl net targetUrl w in
         case r of
           Inr response \<Rightarrow> (Inr (Some response), w1)
         | Inl error \<Rightarrow>
             if i = retries - 1 then (Inl error, w1)
             else fetchWithRetry_loop net targetUrl retries (i + 1)
                    (setTimeout (CONFIG_retryDelay * (i + 1)) w1))
      else (Inr None, w))"
  by pat_completeness auto
termination
  by (relation "measure (\<lambda>(net, targetUrl, retries, i, w). retries - i)") auto

definition fetchWithRetry ::
  "network \<Rightarrow> string \<Rightarrow> nat \<Rightarrow> world \<Rightarrow> (string + string option) \<times> world" where
  "fetchWithRetry net targetUrl retries w = fetchWithRetry_loop net targetUrl retries 0 w"




subsection \<open>JSON values and \<open>JSON.stringify(value, null, 2)\<close>\<close>

text \<open>
  The value \<open>JSON.parse\<close> returns. A number is held as the text \<open>String(n)\<close> of the
  parsed number, which is what \<open>JSON.stringify\<close> prints for it (numbers are never
  inspected by the script). An object is held as its entries in the order
  \<open>Object.entries\<close> lists them.
\<close>

datatype json =
    JNull
  | JBool bool
  | JNumber string
  | JString string
  | JArray "json list"
  | JObject "(string \<times> json) list"

definition newline :: char where
  "newline = CHR 0x0A"

definition hex_digit :: "nat \<Rightarrow> char" where
  "hex_digit n = ''0123456789abcdef'' ! n"

text \<open>\<open>QuoteJSONString\<close> on code units below 256.\<close>

definition quote_char :: "char \<Rightarrow> string" where
  "quote_char c =
     (if c = CHR 0x08 then [CHR 0x5C, CHR ''b'']
      else if c = CHR 0x09 then [CHR 0x5C, CHR ''t'']
      else if c = CHR 0x0A then [CHR 0x5C, CHR ''n'']
      else if c = CHR 0x0C then [CHR 0x5C, CHR ''f'']
      else if c = CHR 0x0D then [CHR 0x5C, CHR ''r'']
      else if c = CHR 0x22 then [CHR 0x5C, CHR 0x22]
      else if c = CHR 0x5C then [CHR 0x5C, CHR 0x5C]
      else if (of_char c :: nat) < 32
        then [CHR 0x5C, CHR ''u'', CHR ''0'', CHR ''0'',
              hex_digit ((of_char c :: nat) div 16), hex_digit ((of_char c :: nat) mod 16)]
      else [c])"

definition quote_json :: "string \<Rightarrow> string" where
  "quote_json s = CHR 0x22 # concat (map quote_char s) @ [CHR 0x22]"

text \<open>Joining with a separator (\<open>Array.prototype.join\<close>).\<close>

fun join_with :: "string \<Rightarrow> string list \<Rightarrow> string" where
  "join_with sep [] = []"
| "join_with sep [s] = s"
| "join_with sep (s # t # ss) = s @ sep @ join_with sep (t # ss)"

text \<open>\<open>SerializeJSONProperty\<close> with a gap of two spaces; \<open>indent\<close> is the current
  indentation.\<close>

fun stringify :: "string \<Rightarrow> json \<Rightarrow> string" where
  "stringify indent JNull = ''null''"
| "stringify indent (JBool b) = (if b then ''true'' else ''false'')"
| "stringify indent (JNumber n) = n"
| "stringify indent (JString s) = quote_json s"
| "stringify indent (JArray xs) =
     (if xs = [] then ''[]''
      else ''['' @ [newline] @ indent @ ''  ''
           @ join_with ('','' @ [newline] @ indent @ ''  '')
               (map (\<lambda>x. stringify (indent @ ''  '') x) xs)
           @ [newline] @ indent @ '']'')"
| "stringify indent (JObject kvs) =
     (if kvs = [] then ''{}''
      else ''{'' @ [newline] @ indent @ ''  ''
           @ join_with ('','' @ [newline] @ indent @ ''  '')
               (map (\<lambda>kv. quote_json (fst kv) @ '': '' @ stringify (indent @ ''  '') (snd kv)) kvs)
           @ [newline] @ indent @ ''}'')"

definition JSON_stringify :: "json \<Rightarrow> string" where
  "JSON_stringify v = stringify [] v"

subsection \<open>JavaScript string helpers\<close>

definition startsWith :: "string \<Rightarrow> string \<Rightarrow> bool" where
  "startsWith s p = prefix p s"

definition endsWith :: "string \<Rightarrow> string \<Rightarrow> bool" where
  "endsWith s p = suffix p s"

text \<open>\<open>String(x)\<close> for a value that is a string or \<open>null\<close>.\<close>

definition js_String :: "string option \<Rightarrow> string" where
  "js_String v = (case v of None \<Rightarrow> ''null'' | Some s \<Rightarrow> s)"




subsection \<open>Node's \<open>path\<close> module (POSIX flavour)\<close>

text \<open>
  The script calls \<open>path.extname\<close>, \<open>path.basename\<close>, \<open>path.dirname\<close> and \<open>path.join\<close>.
  They are functions of the Node.js runtime, not of the repository; the definitions
  below follow the algorithms of \<open>path.posix\<close>.
\<close>

definition slash :: char where
  "slash = CHR ''/''"

text \<open>The last component of a path, trailing slashes ignored (\<open>basename\<close> with no suffix).\<close>

definition last_component :: "string \<Rightarrow> string" where
  "last_component p =
     rev (takeWhile (\<lambda>c. c \<noteq> slash) (dropWhile (\<lambda>c. c = slash) (rev p)))"

definition path_extname :: "string \<Rightarrow> string" where
  "path_extname p =
     (let comp = last_component p;
          pre = rev (drop 1 (dropWhile (\<lambda>c. c \<noteq> CHR ''.'') (rev comp)))
      in if CHR ''.'' \<notin> set comp \<or> pre = [] \<or> comp = ''..'' then []
         else drop (length pre) comp)"

definition path_basename :: "string \<Rightarrow> string \<Rightarrow> string" where
  "path_basename p sfx =
     (if sfx \<noteq> [] \<and> length sfx \<le> length p then
        (if sfx = p then []
         else (let comp = last_component p in
               if suffix sfx comp \<and> comp \<noteq> sfx
               then take (length comp - length sfx) comp else comp))
      else last_component p)"

definition path_dirname :: "string \<Rightarrow> string" where
  "path_dirname p =
     (if p = [] then ''.''
      else (let hasRoot = (hd p = slash);
                r = dropWhile (\<lambda>c. c \<noteq> slash) (dropWhile (\<lambda>c. c = slash) (rev (tl p)));
                e = length r
            in if r = [] then (if hasRoot then ''/'' else ''.'')
               else if hasRoot \<and> e = 1 then ''//''
               else take e p))"

text \<open>Splitting at every slash: \<open>a//b/\<close> gives \<open>a\<close>, the empty string, \<open>b\<close>, the empty string.\<close>

fun split_slash :: "string \<Rightarrow> string list" where
  "split_slash [] = [[]]"
| "split_slash (c # cs) =
     (if c = slash then [] # split_slash cs
      else (case split_slash cs of seg # segs \<Rightarrow> (c # seg) # segs | [] \<Rightarrow> [[c]]))"

fun join_slash :: "string list \<Rightarrow> string" where
  "join_slash [] = []"
| "join_slash [s] = s"
| "join_slash (s # t # ss) = s @ slash # join_slash (t # ss)"

text \<open>\<open>normalizeString\<close>: the stack of segments kept so far is held reversed.\<close>

fun normalizeString :: "bool \<Rightarrow> string list \<Rightarrow> string list \<Rightarrow> string list" where
  "normalizeString allowAboveRoot res [] = rev res"
| "normalizeString allowAboveRoot res (seg # segs) =
     (if seg = [] \<or> seg = ''.'' then normalizeString allowAboveRoot res segs
      else if seg = ''..'' then
        (if res \<noteq> [] \<and> hd res \<noteq> ''..'' then normalizeString allowAboveRoot (tl res) segs
         else if allowAboveRoot then normalizeString allowAboveRoot (''..'' # res) segs
         else normalizeString allowAboveRoot res segs)
      else normalizeString allowAboveRoot (seg # res) segs)"

definition path_normalize :: "string \<Rightarrow> string" where
  "path_normalize p =
     (if p = [] then ''.''
      else (let isAbsolute = (hd p = slash);
                trailingSeparator = (last p = slash);
                q = join_slash (normalizeString (\<not> isAbsolute) [] (split_slash p))
            in if q = [] then (if isAbsolute then ''/'' else if trailingSeparator then ''./'' else ''.'')
               else (if isAbsolute then ''/'' else []) @ q @ (if trailingSeparator then ''/'' else [])))"

definition path_join :: "string list \<Rightarrow> string" where
  "path_join args =
     (let parts = filter (\<lambda>a. a \<noteq> []) args
      in if parts = [] then ''.'' else path_normalize (join_slash parts))"

subsection \<open>The runtime: the WHATWG \<open>URL\<close> class and \<open>JSON.parse\<close>\<close>

text \<open>
  \<open>new URL(input)\<close>, \<open>new URL(input, base)\<close> and \<open>JSON.parse\<close> belong to the runtime. A
  \<open>platform\<close> supplies them: \<open>URL_new input None\<close> is the one-argument constructor,
  \<open>URL_new input (Some base)\<close> the two-argument one, and \<open>None\<close> as a result is the
  \<open>TypeError\<close> (or, for \<open>JSON_parse\<close>, the \<open>SyntaxError\<close>) thrown. The functions of the
  script are defined for every platform.
\<close>

record js_url =
  href :: string
  host :: string
  pathname :: string
  search :: string

record platform =
  URL_new :: "string \<Rightarrow> string option \<Rightarrow> js_url option"
  JSON_parse :: "string \<Rightarrow> json option"

subsection \<open>\<open>Buffer.from(s).toString('base64')\<close>\<close>

definition utf8 :: "string \<Rightarrow> nat list" where
  "utf8 s = concat (map (\<lambda>c. let n = (of_char c :: nat) in
                         if n < 128 then [n] else [192 + n div 64, 128 + n mod 64]) s)"

definition b64_char :: "nat \<Rightarrow> char" where
  "b64_char n = ''ABCDEFGHIJKLMNOPQRSTUVWXYZabcdefghijklmnopqrstuvwxyz0123456789+/'' ! n"

fun base64_bytes :: "nat list \<Rightarrow> string" where
  "base64_bytes (a # b # c # r) =
     [b64_char (a div 4), b64_char ((a mod 4) * 16 + b div 16),
      b64_char ((b mod 16) * 4 + c div 64), b64_char (c mod 64)] @ base64_bytes r"
| "base64_bytes [a, b] =
     [b64_char (a div 4), b64_char ((a mod 4) * 16 + b div 16),
      b64_char ((b mod 16) * 4), CHR ''='']"
| "base64_bytes [a] = [b64_char (a div 4), b64_char ((a mod 4) * 16), CHR ''='', CHR ''='']"
| "base64_bytes [] = []"

definition base64 :: "string \<Rightarrow> string" where
  "base64 s = base64_bytes (utf8 s)"

subsection \<open>resolveUrl and getLocalPath\<close>

definition resolveUrl :: "platform \<Rightarrow> string \<Rightarrow> string \<Rightarrow> string option" where
  "resolveUrl P assetUrl baseUrl =
     (if startsWith assetUrl ''data:'' \<or> startsWith assetUrl ''#'' then None
      else map_option href (URL_new P assetUrl (Some baseUrl)))"

text \<open>\<open>.slice(0, 8).replace(/[/+=]/g, '_')\<close> of the base64 text of the query string.\<close>

definition query_hash :: "string \<Rightarrow> string" where
  "query_hash q =
     map (\<lambda>c. if c = CHR ''/'' \<or> c = CHR ''+'' \<or> c = CHR ''='' then CHR ''_'' else c)
         (take 8 (base64 q))"

definition strip_leading_slashes :: "string \<Rightarrow> string" where
  "strip_leading_slashes s = dropWhile (\<lambda>c. c = slash) s"

definition getLocalPath :: "platform \<Rightarrow> string \<Rightarrow> string \<Rightarrow> string option" where
  "getLocalPath P assetUrl baseUrl =
     (case URL_new P assetUrl None of
        None \<Rightarrow> None
      | Some urlObj \<Rightarrow>
          (case URL_new P baseUrl None of
             None \<Rightarrow> None
           | Some baseUrlObj \<Rightarrow>
               if host urlObj = host baseUrlObj then
                 (let localPath = strip_leading_slashes (pathname urlObj) in
                  if search urlObj \<noteq> [] then
                    (let ext = path_extname localPath;
                         base = path_basename localPath ext;
                         dir = path_dirname localPath;
                         hash = query_hash (search urlObj)
                     in Some (path_join [dir, base @ ''_'' @ hash @ ext]))
                  else Some localPath)
               else Some (strip_leading_slashes
                            (''external/'' @ host urlObj @ pathname urlObj))))"

subsection \<open>A platform for the examples\<close>

text \<open>
  \<open>simple_URL\<close> is the platform of the closed examples of this theory. Its URL
  constructor reads
  \<open>http://host/path?query#fragment\<close> and \<open>https://...\<close> with a lower-case host without
  port, and paths, queries and fragments over \<open>A-Z a-z 0-9 - . _ ~ / = & + , ; : @\<close>,
  and resolves a reference against such a base (absolute, \<open>//host/...\<close>, \<open>/path\<close>,
  \<open>?query\<close>, \<open>#fragment\<close>, empty, or a relative path, with dot segments removed). On
  these inputs it agrees with the WHATWG constructor, which needs no percent-encoding or
  case folding there; every other input it refuses with \<open>None\<close>, so the examples use
  only inputs of this grammar.
\<close>

definition is_alnum :: "char \<Rightarrow> bool" where
  "is_alnum c = (c \<in> set ''0123456789ABCDEFGHIJKLMNOPQRSTUVWXYZabcdefghijklmnopqrstuvwxyz'')"

definition is_host_char :: "char \<Rightarrow> bool" where
  "is_host_char c = (c \<in> set ''0123456789abcdefghijklmnopqrstuvwxyz.-'')"

definition is_path_char :: "char \<Rightarrow> bool" where
  "is_path_char c = (is_alnum c \<or> c \<in> set ''-._~/=&+,;:@'')"

record url_parts =
  p_scheme :: string
  p_host :: string
  p_path :: string
  p_query :: "string option"
  p_fragment :: "string option"

text \<open>Path, query and fragment of the text after the authority (or of a reference).\<close>

definition split_tail :: "string \<Rightarrow> string \<times> string option \<times> string option" where
  "split_tail s =
     (let path = takeWhile (\<lambda>c. c \<noteq> CHR ''?'' \<and> c \<noteq> CHR ''#'') s;
          r = drop (length path) s;
          q = (if r \<noteq> [] \<and> hd r = CHR ''?'' then Some (takeWhile (\<lambda>c. c \<noteq> CHR ''#'') (tl r)) else None);
          r2 = (case q of None \<Rightarrow> r | Some x \<Rightarrow> drop (Suc (length x)) r);
          f = (if r2 \<noteq> [] \<and> hd r2 = CHR ''#'' then Some (tl r2) else None)
      in (path, q, f))"

definition tail_ok :: "string \<times> string option \<times> string option \<Rightarrow> bool" where
  "tail_ok t =
     (case t of (path, q, f) \<Rightarrow>
        list_all is_path_char path \<and>
        (case q of None \<Rightarrow> True | Some x \<Rightarrow> list_all (\<lambda>c. is_path_char c \<or> c = CHR ''?'') x) \<and>
        (case f of None \<Rightarrow> True | Some x \<Rightarrow> list_all (\<lambda>c. is_path_char c \<or> c = CHR ''?'' \<or> c = CHR ''#'') x))"

text \<open>Dot segments: \<open>.\<close> is skipped and \<open>..\<close> pops; either, as last segment, leaves an
  empty last segment. The kept segments are held reversed.\<close>

fun remove_dots :: "string list \<Rightarrow> string list \<Rightarrow> string list" where
  "remove_dots res [] = rev res"
| "remove_dots res (seg # segs) =
     (if seg = ''..'' then remove_dots ((if segs = [] then [[]] else []) @ tl res) segs
      else if seg = ''.'' then remove_dots ((if segs = [] then [[]] else []) @ res) segs
      else remove_dots (seg # res) segs)"

text \<open>A path that starts with a slash, normalised; the empty path becomes \<open>/\<close>.\<close>

definition norm_path :: "string \<Rightarrow> string" where
  "norm_path p = slash # join_slash (remove_dots [] (split_slash (drop 1 p)))"

definition make_url :: "url_parts \<Rightarrow> js_url" where
  "make_url u =
     \<lparr>href = p_scheme u @ ''//'' @ p_host u @ p_path u
              @ (case p_query u of None \<Rightarrow> [] | Some q \<Rightarrow> CHR ''?'' # q)
              @ (case p_fragment u of None \<Rightarrow> [] | Some f \<Rightarrow> CHR ''#'' # f),
      host = p_host u,
      pathname = p_path u,
      search = (case p_query u of None \<Rightarrow> [] | Some q \<Rightarrow> if q = [] then [] else CHR ''?'' # q)\<rparr>"

definition parse_after_scheme :: "string \<Rightarrow> string \<Rightarrow> url_parts option" where
  "parse_after_scheme scheme rest =
     (let h = takeWhile (\<lambda>c. c \<noteq> slash \<and> c \<noteq> CHR ''?'' \<and> c \<noteq> CHR ''#'') rest;
          t = split_tail (drop (length h) rest)
      in if h = [] \<or> \<not> list_all is_host_char h \<or> \<not> tail_ok t then None
         else (case t of (path, q, f) \<Rightarrow>
                 Some \<lparr>p_scheme = scheme, p_host = h, p_path = norm_path path,
                       p_query = q, p_fragment = f\<rparr>))"

definition parse_absolute :: "string \<Rightarrow> url_parts option" where
  "parse_absolute s =
     (if startsWith s ''http://'' then parse_after_scheme ''http:'' (drop 7 s)
      else if startsWith s ''https://'' then parse_after_scheme ''https:'' (drop 8 s)
      else None)"

text \<open>A path up to and including its last slash.\<close>

definition path_dirname_slash :: "string \<Rightarrow> string" where
  "path_dirname_slash p = rev (dropWhile (\<lambda>c. c \<noteq> slash) (rev p))"

definition resolve_reference :: "string \<Rightarrow> url_parts \<Rightarrow> url_parts option" where
  "resolve_reference r b =
     (if startsWith r ''http://'' \<or> startsWith r ''https://'' then parse_absolute r
      else if startsWith r ''//'' then parse_after_scheme (p_scheme b) (drop 2 r)
      else (let t = split_tail r in
            if \<not> tail_ok t \<or> CHR '':'' \<in> set (fst t) then None
            else (case t of (path, q, f) \<Rightarrow>
              if path = [] then
                Some (b\<lparr>p_query := (case q of None \<Rightarrow> p_query b | Some x \<Rightarrow> Some x),
                        p_fragment := f\<rparr>)
              else if hd path = slash then
                Some (b\<lparr>p_path := norm_path path, p_query := q, p_fragment := f\<rparr>)
              else
                Some (b\<lparr>p_path := norm_path (path_dirname_slash (p_path b) @ path),
                        p_query := q, p_fragment := f\<rparr>))))"

definition simple_URL_new :: "string \<Rightarrow> string option \<Rightarrow> js_url option" where
  "simple_URL_new input base =
     (case base of
        None \<Rightarrow> map_option make_url (parse_absolute input)
      | Some b \<Rightarrow>
          (case parse_absolute b of
             None \<Rightarrow> None
           | Some bp \<Rightarrow> map_option make_url (resolve_reference input bp)))"

text \<open>
  Its \<open>JSON.parse\<close> reads the JSON texts built from objects, arrays, strings without
  escapes, \<open>true\<close>, \<open>false\<close> and \<open>null\<close>, where no object repeats a key or has a key
  made of digits only (such keys would change the order of the entries); it refuses
  every other text. The parser runs on fuel, one unit per value, and the length of the
  text is always enough.
\<close>

definition skip_ws :: "string \<Rightarrow> string" where
  "skip_ws s = dropWhile (\<lambda>c. c \<in> set [CHR 0x20, CHR 0x09, CHR 0x0A, CHR 0x0D]) s"

text \<open>After an opening quote: the string up to the closing quote, and the rest.\<close>

definition parse_string_body :: "string \<Rightarrow> (string \<times> string) option" where
  "parse_string_body s =
     (let body = takeWhile (\<lambda>c. c \<noteq> CHR 0x22) s; rest = drop (length body) s
      in if rest = [] \<or> list_ex (\<lambda>c. c = CHR 0x5C \<or> (of_char c :: nat) < 32) body then None
         else Some (body, tl rest))"

definition key_ok :: "(string \<times> json) list \<Rightarrow> string \<Rightarrow> bool" where
  "key_ok entries key =
     (key \<notin> set (map fst entries) \<and> (key = [] \<or> list_ex (\<lambda>c. c \<notin> set ''0123456789'') key))"

fun parse_value :: "nat \<Rightarrow> string \<Rightarrow> (json \<times> string) option"
  and parse_elements :: "nat \<Rightarrow> string \<Rightarrow> json list \<Rightarrow> (json \<times> string) option"
  and parse_members :: "nat \<Rightarrow> string \<Rightarrow> (string \<times> json) list \<Rightarrow> (json \<times> string) option" where
  "parse_value 0 s = None"
| "parse_value (Suc n) s =
     (case skip_ws s of
        [] \<Rightarrow> None
      | c # r \<Rightarrow>
          if c = CHR ''{'' then
            (case skip_ws r of
               [] \<Rightarrow> None
             | d # r2 \<Rightarrow> if d = CHR ''}'' then Some (JObject [], r2) else parse_members n r [])
          else if c = CHR ''['' then
            (case skip_ws r of
               [] \<Rightarrow> None
             | d # r2 \<Rightarrow> if d = CHR '']'' then Some (JArray [], r2) else parse_elements n r [])
          else if c = CHR 0x22 then
            map_option (\<lambda>(body, r2). (JString body, r2)) (parse_string_body r)
          else if prefix ''true'' (c # r) then Some (JBool True, drop 3 r)
          else if prefix ''false'' (c # r) then Some (JBool False, drop 4 r)
          else if prefix ''null'' (c # r) then Some (JNull, drop 3 r)
          else None)"
| "parse_elements 0 s acc = None"
| "parse_elements (Suc n) s acc =
     (case parse_value n s of
        None \<Rightarrow> None
      | Some (v, r) \<Rightarrow>
          (case skip_ws r of
             [] \<Rightarrow> None
           | c # r2 \<Rightarrow>
               if c = CHR '','' then parse_elements n r2 (acc @ [v])
               else if c = CHR '']'' then Some (JArray (acc @ [v]), r2)
               else None))"
| "parse_members 0 s acc = None"
| "parse_members (Suc n) s acc =
     (case skip_ws s of
        [] \<Rightarrow> None
      | q # r \<Rightarrow>
          if q \<noteq> CHR 0x22 then None
          else (case parse_string_body r of
             None \<Rightarrow> None
           | Some (key, r2) \<Rightarrow>
               (case skip_ws r2 of
                  [] \<Rightarrow> None
                | c # r3 \<Rightarrow>
                    if c \<noteq> CHR '':'' \<or> \<not> key_ok acc key then None
                    else (case parse_value n r3 of
                       None \<Rightarrow> None
                     | Some (v, r4) \<Rightarrow>
                         (case skip_ws r4 of
                            [] \<Rightarrow> None
                          | d # r5 \<Rightarrow>
                              if d = CHR '','' then parse_members n r5 (acc @ [(key, v)])
                              else if d = CHR ''}'' then Some (JObject (acc @ [(key, v)]), r5)
                              else None)))))"

definition simple_JSON_parse :: "string \<Rightarrow> json option" where
  "simple_JSON_parse s =
     (case parse_value (Suc (length s)) s of
        None \<Rightarrow> None
      | Some (v, r) \<Rightarrow> if skip_ws r = [] then Some v else None)"

definition simple_URL :: platform where
  "simple_URL = \<lparr>URL_new = simple_URL_new, JSON_parse = simple_JSON_parse\<rparr>"

subsection \<open>The file system\<close>

text \<open>
  \<open>fs.existsSync\<close>, \<open>fs.mkdirSync(dir, {recursive: true})\<close> and \<open>fs.writeFileSync\<close> on the
  set of existing paths. Writes are taken to succeed.
\<close>

definition existsSync :: "string \<Rightarrow> world \<Rightarrow> bool" where
  "existsSync p w = (p \<in> disk w)"

text \<open>The proper ancestors of a path: its prefixes that end just before a slash.\<close>

definition path_ancestors :: "string \<Rightarrow> string list" where
  "path_ancestors p = map (\<lambda>k. take k p) (filter (\<lambda>k. p ! k = slash) [1..<length p])"

definition mkdirSync_recursive :: "string \<Rightarrow> world \<Rightarrow> world" where
  "mkdirSync_recursive dirPath w = w\<lparr>disk := disk w \<union> set (dirPath # path_ancestors dirPath)\<rparr>"

definition ensureDir :: "string \<Rightarrow> world \<Rightarrow> world" where
  "ensureDir dirPath w = (if \<not> existsSync dirPath w then mkdirSync_recursive dirPath w else w)"

definition writeFileSync :: "string \<Rightarrow> world \<Rightarrow> world" where
  "writeFileSync p w = w\<lparr>disk := insert p (disk w)\<rparr>"

subsection \<open>downloadBookPages\<close>

record bookInfo =
  bi_host :: string
  bi_protocol :: string
  bookId1 :: string
  bookId2 :: string
  baseUrl :: string












subsection \<open>Regular expressions\<close>

text \<open>
  The regular expressions of the script, as a datatype, and a backtracking matcher with
  the semantics of JavaScript for this fragment: alternatives are tried left to right,
  quantifiers are greedy, an iteration of a quantifier that consumes nothing is
  rejected, and the first successful path is the match. All expressions of the script
  carry the flag \<open>i\<close>: characters are compared after \<open>canon\<close> (ASCII upper case; a
  character outside ASCII is never equal to an ASCII one). \<open>canon\<close> works on the bits of
  the character, lowest first: the codes 97 to 122 (\<open>a\<close> to \<open>z\<close>) have the top three
  bits 011 and the low five bits between 1 and 26, and lose bit 5 (32).
\<close>

datatype regex =
    Lit char
  | OneOf "char list"
  | NoneOf "char list"
  | Space
  | Eps
  | Eol
  | Seq regex regex
  | Alt regex regex
  | Star regex
  | Plus regex
  | Opt regex
  | Group nat regex

fun Str :: "string \<Rightarrow> regex" where
  "Str [] = Eps"
| "Str [c] = Lit c"
| "Str (c # cs) = Seq (Lit c) (Str cs)"

fun Seqs :: "regex list \<Rightarrow> regex" where
  "Seqs [] = Eps"
| "Seqs [r] = r"
| "Seqs (r # rs) = Seq r (Seqs rs)"

fun Alts :: "regex list \<Rightarrow> regex" where
  "Alts [] = NoneOf []"
| "Alts [r] = r"
| "Alts (r # rs) = Alt r (Alts rs)"

definition canon :: "char \<Rightarrow> char" where
  "canon c =
     (case c of Char b0 b1 b2 b3 b4 b5 b6 b7 \<Rightarrow>
        if \<not> b7 \<and> b6 \<and> b5 \<and> (b0 \<or> b1 \<or> b2 \<or> b3 \<or> b4)
           \<and> \<not> (b4 \<and> b3 \<and> (b2 \<or> (b1 \<and> b0)))
        then Char b0 b1 b2 b3 b4 False b6 b7 else c)"

text \<open>\<open>\s\<close> on code units below 256: tab, line feed, vertical tab, form feed, carriage
  return, space and no-break space.\<close>

definition is_space :: "char \<Rightarrow> bool" where
  "is_space c = (c \<in> set [CHR 0x09, CHR 0x0A, CHR 0x0B, CHR 0x0C, CHR 0x0D, CHR 0x20, CHR 0xA0])"

type_synonym captures = "(nat \<times> string) list"

text \<open>
  \<open>ms r s k\<close>: every way \<open>r\<close> matches a prefix of \<open>s\<close>, in the order the backtracking
  matcher tries them, each as the rest of the input and the groups captured so far.
\<close>

fun ms :: "regex \<Rightarrow> string \<Rightarrow> captures \<Rightarrow> (string \<times> captures) list" where
  "ms (Lit c) s k = (case s of [] \<Rightarrow> [] | x # xs \<Rightarrow> if canon x = canon c then [(xs, k)] else [])"
| "ms (OneOf cs) s k =
     (case s of [] \<Rightarrow> [] | x # xs \<Rightarrow> if canon x \<in> set (map canon cs) then [(xs, k)] else [])"
| "ms (NoneOf cs) s k =
     (case s of [] \<Rightarrow> [] | x # xs \<Rightarrow> if canon x \<notin> set (map canon cs) then [(xs, k)] else [])"
| "ms Space s k = (case s of [] \<Rightarrow> [] | x # xs \<Rightarrow> if is_space x then [(xs, k)] else [])"
| "ms Eps s k = [(s, k)]"
| "ms Eol s k = (if s = [] then [(s, k)] else [])"
| "ms (Seq a b) s k = concat (map (\<lambda>(s', k'). ms b s' k') (ms a s k))"
| "ms (Alt a b) s k = ms a s k @ ms b s k"
| "ms (Star a) s k =
     concat (map (\<lambda>(s', k'). if length s' < length s then ms (Star a) s' k' else []) (ms a s k))
     @ [(s, k)]"
| "ms (Plus a) s k =
     concat (map (\<lambda>(s', k'). if length s' < length s then ms (Star a) s' k' else [(s', k')])
                 (ms a s k))"
| "ms (Opt a) s k = ms a s k @ [(s, k)]"
| "ms (Group n a) s k =
     map (\<lambda>(s', k'). (s', (n, take (length s - length s') s) # k')) (ms a s k)"

declare ms.simps [simp del]

text \<open>The match at the start of \<open>s\<close>, if there is one: the groups and the rest of the input.\<close>

definition match_here :: "regex \<Rightarrow> string \<Rightarrow> (captures \<times> string) option" where
  "match_here r s = (case ms r s [] of [] \<Rightarrow> None | (rest, k) # others \<Rightarrow> Some (k, rest))"

text \<open>
  A global scan (\<open>String.prototype.replace\<close> with a \<open>g\<close> expression, or the
  \<open>while ((match = re.exec(s)) !== null)\<close> loop): the input cut into the characters no
  match covers and the matches, left to right. After an empty match \<open>replace\<close> steps
  over one character.
\<close>

datatype piece = Text char | Found string captures

function scan :: "regex \<Rightarrow> string \<Rightarrow> piece list" where
  "scan r s =
     (case match_here r s of
        Some (k, rest) \<Rightarrow>
          if length rest < length s then Found (take (length s - length rest) s) k # scan r rest
          else (case s of [] \<Rightarrow> [Found [] k] | c # cs \<Rightarrow> Found [] k # Text c # scan r cs)
      | None \<Rightarrow> (case s of [] \<Rightarrow> [] | c # cs \<Rightarrow> Text c # scan r cs))"
  by pat_completeness auto
termination
  by (relation "measure (\<lambda>(r, s). length s)") auto

declare scan.simps [simp del]

definition piece_text :: "piece \<Rightarrow> string" where
  "piece_text p = (case p of Text c \<Rightarrow> [c] | Found m k \<Rightarrow> m)"

text \<open>Capture group \<open>n\<close> of a match (every group of the script's expressions takes part
  in every match).\<close>

definition group :: "captures \<Rightarrow> nat \<Rightarrow> string" where
  "group k n = (case map_of k n of None \<Rightarrow> [] | Some g \<Rightarrow> g)"

text \<open>
  The \<open>exec\<close> loop: the groups of the successive matches. The loop does not advance
  \<open>lastIndex\<close> over an empty match and then never ends: \<open>None\<close>.
\<close>

definition exec_all :: "regex \<Rightarrow> string \<Rightarrow> captures list option" where
  "exec_all r s =
     (let ps = scan r s in
      if list_ex (\<lambda>p. case p of Found m k \<Rightarrow> m = [] | Text c \<Rightarrow> False) ps then None
      else Some (concat (map (\<lambda>p. case p of Found m k \<Rightarrow> [k] | Text c \<Rightarrow> []) ps)))"

text \<open>\<open>s.replace(r, f)\<close> for a global expression \<open>r\<close> and a replacer function \<open>f\<close>, which
  receives the matched text and the groups.\<close>

definition replace_all :: "regex \<Rightarrow> (string \<Rightarrow> captures \<Rightarrow> string) \<Rightarrow> string \<Rightarrow> string" where
  "replace_all r f s =
     concat (map (\<lambda>p. case p of Text c \<Rightarrow> [c] | Found m k \<Rightarrow> f m k) (scan r s))"

text \<open>An expression that matches the empty string somewhere (syntactically).\<close>

fun nullable :: "regex \<Rightarrow> bool" where
  "nullable (Lit c) = False"
| "nullable (OneOf cs) = False"
| "nullable (NoneOf cs) = False"
| "nullable Space = False"
| "nullable Eps = True"
| "nullable Eol = True"
| "nullable (Seq a b) = (nullable a \<and> nullable b)"
| "nullable (Alt a b) = (nullable a \<or> nullable b)"
| "nullable (Star a) = True"
| "nullable (Plus a) = nullable a"
| "nullable (Opt a) = True"
| "nullable (Group n a) = nullable a"

text \<open>An expression without capturing groups.\<close>

fun no_groups :: "regex \<Rightarrow> bool" where
  "no_groups (Seq a b) = (no_groups a \<and> no_groups b)"
| "no_groups (Alt a b) = (no_groups a \<and> no_groups b)"
| "no_groups (Star a) = no_groups a"
| "no_groups (Plus a) = no_groups a"
| "no_groups (Opt a) = no_groups a"
| "no_groups (Group n a) = False"
| "no_groups r = True"

subsection \<open>extractAssets and extractCssAssets\<close>

text \<open>The two quote characters, \<open>"\<close> and \<open>'\<close>.\<close>

definition quotes :: "char list" where
  "quotes = [CHR 0x22, CHR 0x27]"

text \<open>\<open>/<link[^>]+href=["']([^"']+\.css[^"']*)["'][^>]*>/gi\<close>\<close>

definition cssRegex :: regex where
  "cssRegex = Seqs [Str ''<link'', Plus (NoneOf ''>''), Str ''href='', OneOf quotes,
                    Group 1 (Seqs [Plus (NoneOf quotes), Str ''.css'', Star (NoneOf quotes)]),
                    OneOf quotes, Star (NoneOf ''>''), Lit CHR ''>'']"

text \<open>\<open>/<script[^>]+src=["']([^"']+\.js[^"']*)["'][^>]*>/gi\<close>\<close>

definition jsRegex :: regex where
  "jsRegex = Seqs [Str ''<script'', Plus (NoneOf ''>''), Str ''src='', OneOf quotes,
                   Group 1 (Seqs [Plus (NoneOf quotes), Str ''.js'', Star (NoneOf quotes)]),
                   OneOf quotes, Star (NoneOf ''>''), Lit CHR ''>'']"

text \<open>\<open>/(?:src|href|data-src|data-original)=["']([^"']+\.(?:png|jpg|jpeg|gif|svg|webp|ico)[^"']*)["']/gi\<close>\<close>

definition imgRegex :: regex where
  "imgRegex = Seqs [Alts [Str ''src'', Str ''href'', Str ''data-src'', Str ''data-original''],
                    Lit CHR ''='', OneOf quotes,
                    Group 1 (Seqs [Plus (NoneOf quotes), Lit CHR ''.'',
                                   Alts [Str ''png'', Str ''jpg'', Str ''jpeg'', Str ''gif'',
                                         Str ''svg'', Str ''webp'', Str ''ico''],
                                   Star (NoneOf quotes)]),
                    OneOf quotes]"

text \<open>\<open>/url\(["']?([^"')]+\.(?:png|jpg|jpeg|gif|svg|webp))["']?\)/gi\<close>\<close>

definition bgRegex :: regex where
  "bgRegex = Seqs [Str ''url('', Opt (OneOf quotes),
                   Group 1 (Seqs [Plus (NoneOf (quotes @ '')'')), Lit CHR ''.'',
                                  Alts [Str ''png'', Str ''jpg'', Str ''jpeg'', Str ''gif'',
                                        Str ''svg'', Str ''webp'']]),
                   Opt (OneOf quotes), Lit CHR '')'']"

text \<open>\<open>/url\(["']?([^"')]+\.(?:woff2?|ttf|otf|eot))["']?\)/gi\<close>\<close>

definition fontRegex :: regex where
  "fontRegex = Seqs [Str ''url('', Opt (OneOf quotes),
                     Group 1 (Seqs [Plus (NoneOf (quotes @ '')'')), Lit CHR ''.'',
                                    Alts [Seq (Str ''woff'') (Opt (Lit CHR ''2'')), Str ''ttf'',
                                          Str ''otf'', Str ''eot'']]),
                     Opt (OneOf quotes), Lit CHR '')'']"

text \<open>\<open>/["']([^"']+\.EXT[^"']*)["']/gi\<close> for an alternative \<open>EXT\<close> of extensions: the
  expressions for JSON, XML, SWF, audio and video files.\<close>

definition quotedRegex :: "string list \<Rightarrow> regex" where
  "quotedRegex exts = Seqs [OneOf quotes,
                           Group 1 (Seqs [Plus (NoneOf quotes), Lit CHR ''.'', Alts (map Str exts),
                                          Star (NoneOf quotes)]),
                           OneOf quotes]"

definition jsonRegex :: regex where
  "jsonRegex = quotedRegex [''json'']"

definition xmlRegex :: regex where
  "xmlRegex = quotedRegex [''xml'']"

definition swfRegex :: regex where
  "swfRegex = quotedRegex [''swf'']"

definition audioRegex :: regex where
  "audioRegex = quotedRegex [''mp3'', ''wav'', ''ogg'', ''m4a'']"

definition videoRegex :: regex where
  "videoRegex = quotedRegex [''mp4'', ''webm'', ''ogv'']"

text \<open>\<open>/url\(["']?([^"')]+)["']?\)/gi\<close>\<close>

definition urlRegex :: regex where
  "urlRegex = Seqs [Str ''url('', Opt (OneOf quotes), Group 1 (Plus (NoneOf (quotes @ '')''))),
                    Opt (OneOf quotes), Lit CHR '')'']"

text \<open>\<open>/@import\s+["']([^"']+)["']/gi\<close>\<close>

definition importRegex :: regex where
  "importRegex = Seqs [Str ''@import'', Plus Space, OneOf quotes, Group 1 (Plus (NoneOf quotes)),
                       OneOf quotes]"

text \<open>\<open>String.prototype.includes\<close>.\<close>

fun str_includes :: "string \<Rightarrow> string \<Rightarrow> bool" where
  "str_includes [] p = (p = [])"
| "str_includes (c # cs) p = (prefix p (c # cs) \<or> str_includes cs p)"

text \<open>
  An asset of a list is an absolute URL string or \<open>null\<close> (\<open>None\<close>). A JavaScript \<open>Set\<close>
  keeps its elements in insertion order; \<open>Array.from\<close> returns them in that order.
\<close>

type_synonym asset = "string option"

definition set_add :: "'a \<Rightarrow> 'a list \<Rightarrow> 'a list" where
  "set_add x xs = (if x \<in> set xs then xs else xs @ [x])"

text \<open>
  One \<open>while ((match = regex.exec(text)) !== null)\<close> loop of an extractor: for every match
  whose first group passes \<open>keep\<close>, \<open>assets.add(resolveUrl(match[1], baseUrl))\<close>. \<open>None\<close>
  when the loop, or one before it, never ends.
\<close>

definition exec_loop ::
  "platform \<Rightarrow> string \<Rightarrow> string \<Rightarrow> asset list option \<Rightarrow> regex \<times> (string \<Rightarrow> bool)
     \<Rightarrow> asset list option" where
  "exec_loop P content base assets rk =
     (case assets of
        None \<Rightarrow> None
      | Some acc \<Rightarrow>
          (case exec_all (fst rk) content of
             None \<Rightarrow> None
           | Some matches \<Rightarrow>
               Some (foldl (\<lambda>acc k. if snd rk (group k 1)
                                     then set_add (resolveUrl P (group k 1) base) acc else acc)
                           acc matches)))"

definition always :: "string \<Rightarrow> bool" where
  "always s = True"

definition extractAssets_loops :: "(regex \<times> (string \<Rightarrow> bool)) list" where
  "extractAssets_loops =
     [(cssRegex, always), (jsRegex, always), (imgRegex, always), (bgRegex, always),
      (fontRegex, always),
      (jsonRegex, \<lambda>m. str_includes m ''/'' \<or> str_includes m ''config'' \<or> str_includes m ''book''),
      (xmlRegex, always), (swfRegex, always), (audioRegex, always), (videoRegex, always)]"


definition extractCssAssets_loops :: "(regex \<times> (string \<Rightarrow> bool)) list" where
  "extractCssAssets_loops =
     [(urlRegex, \<lambda>assetUrl. \<not> startsWith assetUrl ''data:''), (importRegex, always)]"

definition extractCssAssets :: "platform \<Rightarrow> string \<Rightarrow> string \<Rightarrow> asset list option" where
  "extractCssAssets P css base = foldl (exec_loop P css base) (Some []) extractCssAssets_loops"

subsection \<open>downloadAsset\<close>

text \<open>The object \<open>downloadAsset\<close> returns: its \<open>status\<close> with \<open>url\<close>, \<open>localPath\<close>,
  \<open>additionalAssets\<close> (absent for a file that is no style sheet) and \<open>error\<close>.\<close>

datatype download_result =
    Cached asset string
  | Downloaded asset string "asset list option"
  | Failed asset string

text \<open>
  \<open>downloadAsset\<close> is an \<open>async\<close> function: it runs up to its first \<open>await\<close> when it is
  called, and the rest when the awaited \<open>fetchWithRetry\<close> has settled.
  \<open>downloadAsset_start\<close> is the first part: it has either returned already (\<open>null\<close> for
  a local path that is \<open>null\<close> or empty, or the \<open>cached\<close> result), or the request is in
  flight. \<open>new URL(null)\<close> reads its argument as the string \<open>null\<close>.
\<close>

datatype pending =
    Returned "download_result option"
  | Fetching string string

definition downloadAsset_start :: "platform \<Rightarrow> asset \<Rightarrow> string \<Rightarrow> string \<Rightarrow> world \<Rightarrow> pending" where
  "downloadAsset_start P assetUrl outputDir base w =
     (case getLocalPath P (js_String assetUrl) base of
        None \<Rightarrow> Returned None
      | Some localPath \<Rightarrow>
          if localPath = [] then Returned None
          else (let fullPath = path_join [outputDir, localPath] in
                if existsSync fullPath w then Returned (Some (Cached assetUrl localPath))
                else Fetching localPath fullPath))"

text \<open>
  \<open>downloadAsset_finish\<close> is the second part, from the outcome of \<open>fetchWithRetry\<close>:
  an error thrown is caught and reported as \<open>failed\<close>; so is the \<open>TypeError\<close> of reading
  \<open>response.data\<close> from an undefined response, which is raised after \<open>ensureDir\<close>. The
  result is \<open>None\<close> when the extraction loop over a style sheet never ends.
\<close>

definition downloadAsset_finish ::
  "platform \<Rightarrow> asset \<Rightarrow> string \<Rightarrow> string \<Rightarrow> string + string option \<Rightarrow> world
     \<Rightarrow> (download_result \<times> world) option" where
  "downloadAsset_finish P assetUrl localPath fullPath outcome w =
     (case outcome of
        Inl error \<Rightarrow> Some (Failed assetUrl error, w)
      | Inr None \<Rightarrow>
          Some (Failed assetUrl ''Cannot read properties of undefined (reading 'data')'',
                ensureDir (path_dirname fullPath) w)
      | Inr (Some data) \<Rightarrow>
          (let w1 = writeFileSync fullPath (ensureDir (path_dirname fullPath) w) in
           if endsWith localPath ''.css'' then
             (case extractCssAssets P data (js_String assetUrl) of
                None \<Rightarrow> None
              | Some cssAssets \<Rightarrow> Some (Downloaded assetUrl localPath (Some cssAssets), w1))
           else Some (Downloaded assetUrl localPath None, w1)))"


subsection \<open>rewriteUrls\<close>

text \<open>\<open>/((?:src|href|data-src|data-original)\s*=\s*["'])([^"']+)(["'])/gi\<close>\<close>

definition htmlUrlPattern :: regex where
  "htmlUrlPattern =
     Seqs [Group 1 (Seqs [Alts [Str ''src'', Str ''href'', Str ''data-src'', Str ''data-original''],
                          Star Space, Lit CHR ''='', Star Space, OneOf quotes]),
           Group 2 (Plus (NoneOf quotes)),
           Group 3 (OneOf quotes)]"

text \<open>The replacer functions: \<open>m\<close> is the matched text, \<open>k\<close> its groups. A falsy result
  of a step (\<open>null\<close> or the empty string) returns the match unchanged.\<close>

definition html_replacer :: "platform \<Rightarrow> string \<Rightarrow> string \<Rightarrow> captures \<Rightarrow> string" where
  "html_replacer P base m k =
     (case resolveUrl P (group k 2) base of
        None \<Rightarrow> m
      | Some absoluteUrl \<Rightarrow>
          if absoluteUrl = [] then m
          else (case getLocalPath P absoluteUrl base of
                  None \<Rightarrow> m
                | Some localPath \<Rightarrow>
                    if localPath = [] then m else group k 1 @ localPath @ group k 3))"

definition css_replacer :: "platform \<Rightarrow> string \<Rightarrow> string \<Rightarrow> captures \<Rightarrow> string" where
  "css_replacer P base m k =
     (if startsWith (group k 1) ''data:'' then m
      else (case resolveUrl P (group k 1) base of
        None \<Rightarrow> m
      | Some absoluteUrl \<Rightarrow>
          if absoluteUrl = [] then m
          else (case getLocalPath P absoluteUrl base of
                  None \<Rightarrow> m
                | Some localPath \<Rightarrow>
                    if localPath = [] then m
                    else ''url('' @ [CHR 0x22] @ localPath @ [CHR 0x22] @ '')'')))"

definition rewriteUrls :: "platform \<Rightarrow> string \<Rightarrow> string \<Rightarrow> bool \<Rightarrow> string" where
  "rewriteUrls P content base isHtml =
     (if isHtml then replace_all htmlUrlPattern (html_replacer P base) content
      else replace_all urlRegex (css_replacer P base) content)"

subsection \<open>rewriteJsonUrls\<close>

text \<open>\<open>/\.(jpg|jpeg|png|gif|svg|mp3|mp4|js|css)$/i\<close>, and \<open>value.match\<close> of an expression
  without the flag \<open>g\<close>: a match somewhere in the string.\<close>

definition assetSuffixRegex :: regex where
  "assetSuffixRegex =
     Seqs [Lit CHR ''.'',
           Group 1 (Alts [Str ''jpg'', Str ''jpeg'', Str ''png'', Str ''gif'', Str ''svg'',
                          Str ''mp3'', Str ''mp4'', Str ''js'', Str ''css'']),
           Eol]"

fun matches_somewhere :: "regex \<Rightarrow> string \<Rightarrow> bool" where
  "matches_somewhere r [] = (match_here r [] \<noteq> None)"
| "matches_somewhere r (c # cs) = (match_here r (c # cs) \<noteq> None \<or> matches_somewhere r cs)"

definition rewriteValue :: "platform \<Rightarrow> bookInfo \<Rightarrow> string \<Rightarrow> string" where
  "rewriteValue P info v =
     (if startsWith v ''http://'' \<or> startsWith v ''https://'' then
        (case getLocalPath P v (baseUrl info) of
           None \<Rightarrow> v
         | Some localPath \<Rightarrow> if localPath = [] then v else localPath)
      else if matches_somewhere assetSuffixRegex v then v
      else v)"

text \<open>
  \<open>rewriteObject\<close> builds each object anew by assignment, \<open>result[key] = ...\<close>.
  Assigning to the key \<open>__proto__\<close> sets the prototype (or does nothing) and creates no
  property, so such an entry is not in the result.
\<close>

fun rewriteObject :: "platform \<Rightarrow> bookInfo \<Rightarrow> json \<Rightarrow> json" where
  "rewriteObject P info (JArray xs) = JArray (map (\<lambda>x. rewriteObject P info x) xs)"
| "rewriteObject P info (JObject kvs) =
     JObject (map (\<lambda>kv. (fst kv, rewriteObject P info (snd kv)))
                  (filter (\<lambda>kv. fst kv \<noteq> ''__proto__'') kvs))"
| "rewriteObject P info (JString s) = JString (rewriteValue P info s)"
| "rewriteObject P info JNull = JNull"
| "rewriteObject P info (JBool b) = JBool b"
| "rewriteObject P info (JNumber n) = JNumber n"

definition rewriteJsonUrls :: "platform \<Rightarrow> string \<Rightarrow> string \<Rightarrow> bookInfo \<Rightarrow> string" where
  "rewriteJsonUrls P content base info =
     (case JSON_parse P content of
        None \<Rightarrow> content
      | Some json \<Rightarrow> JSON_stringify (rewriteObject P info json))"

text \<open>The book of the examples with a short host, and with the origin root as base URL.\<close>

definition short_book :: bookInfo where
  "short_book = \<lparr>bi_host = ''h'', bi_protocol = ''http:'', bookId1 = ''x'', bookId2 = ''y'',
                  baseUrl = ''http://h/x/y/''\<rparr>"


subsection \<open>downloadAssetsWithConcurrency\<close>

text \<open>
  The state of the scheduler. \<open>queue\<close>, \<open>inProgress\<close>, \<open>downloaded\<close> and \<open>results\<close> are the
  variables of the function; a promise in \<open>inProgress\<close> is held as the asset it was
  created for and what its \<open>downloadAsset\<close> call is waiting for. \<open>sw\<close> is the world.
  Two fields only observe: \<open>calls\<close> lists the calls of \<open>downloadAsset\<close> in order, and
  \<open>peak\<close> is the largest size \<open>inProgress\<close> has had.
\<close>

record sched =
  queue :: "asset list"
  inProgress :: "(asset \<times> pending) list"
  downloaded :: "asset list"
  results :: "download_result list"
  calls :: "asset list"
  peak :: nat
  sw :: world

text \<open>The inner loop \<open>while (queue.length > 0 && inProgress.size < limit)\<close>, where \<open>limit\<close>
  is \<open>CONFIG.concurrentDownloads\<close>.\<close>

function fill :: "platform \<Rightarrow> nat \<Rightarrow> string \<Rightarrow> string \<Rightarrow> sched \<Rightarrow> sched" where
  "fill P limit outputDir base s =
     (case queue s of
        [] \<Rightarrow> s
      | asset # rest \<Rightarrow>
          if length (inProgress s) < limit then
            (if asset \<in> set (downloaded s) then fill P limit outputDir base (s\<lparr>queue := rest\<rparr>)
             else fill P limit outputDir base
                    (s\<lparr>queue := rest,
                       downloaded := set_add asset (downloaded s),
                       inProgress := inProgress s
                          @ [(asset, downloadAsset_start P asset outputDir base (sw s))],
                       calls := calls s @ [asset],
                       peak := max (peak s) (Suc (length (inProgress s)))\<rparr>))
          else s)"
  by pat_completeness auto
termination
  by (relation "measure (\<lambda>(P, limit, outputDir, base, s). length (queue s))") auto

declare fill.simps [simp del]

text \<open>The callback of \<open>.then\<close>, after \<open>inProgress.delete(promise)\<close>: the result is pushed,
  and the additional assets of a style sheet are queued unless they are falsy or
  already in \<open>downloaded\<close>.\<close>

definition deliver :: "download_result option \<Rightarrow> sched \<Rightarrow> sched" where
  "deliver r s =
     (case r of
        None \<Rightarrow> s
      | Some res \<Rightarrow>
          (let s1 = s\<lparr>results := results s @ [res]\<rparr> in
           case res of
             Downloaded u localPath (Some additionalAssets) \<Rightarrow>
               s1\<lparr>queue := queue s1
                       @ filter (\<lambda>a. a \<noteq> None \<and> a \<noteq> Some [] \<and> a \<notin> set (downloaded s1))
                           additionalAssets\<rparr>
           | Downloaded u localPath None \<Rightarrow> s1
           | Cached u localPath \<Rightarrow> s1
           | Failed u error \<Rightarrow> s1))"

text \<open>
  The promise at position \<open>i\<close> of \<open>inProgress\<close> settles: the rest of its \<open>downloadAsset\<close>
  call runs (for a request in flight, with the outcome of \<open>fetchWithRetry\<close>), then its
  callback. \<open>None\<close> when that never ends.
\<close>

definition settle :: "platform \<Rightarrow> network \<Rightarrow> nat \<Rightarrow> sched \<Rightarrow> sched option" where
  "settle P net i s =
     (case inProgress s ! i of
        (asset, p) \<Rightarrow>
          (let s1 = s\<lparr>inProgress := take i (inProgress s) @ drop (Suc i) (inProgress s)\<rparr> in
           case p of
             Returned r \<Rightarrow> Some (deliver r s1)
           | Fetching localPath fullPath \<Rightarrow>
               (case fetchWithRetry net (js_String asset) CONFIG_maxRetries (sw s1) of
                  (outcome, w1) \<Rightarrow>
                    (case downloadAsset_finish P asset localPath fullPath outcome w1 of
                       None \<Rightarrow> None
                     | Some (r, w2) \<Rightarrow> Some (deliver (Some r) (s1\<lparr>sw := w2\<rparr>))))))"

text \<open>
  \<open>await Promise.race(inProgress)\<close>: the function resumes after one promise or more
  have settled. Which ones is the choice of the event loop; \<open>picks\<close> names them by
  position (taken modulo the current size of \<open>inProgress\<close>), an empty list standing for the
  first promise.
\<close>

fun settle_all :: "platform \<Rightarrow> network \<Rightarrow> nat list \<Rightarrow> sched \<Rightarrow> sched option" where
  "settle_all P net [] s = Some s"
| "settle_all P net (i # picks) s =
     (if inProgress s = [] then Some s
      else (case settle P net (i mod length (inProgress s)) s of
              None \<Rightarrow> None
            | Some s1 \<Rightarrow> settle_all P net picks s1))"

definition await_race :: "platform \<Rightarrow> network \<Rightarrow> nat list \<Rightarrow> sched \<Rightarrow> sched option" where
  "await_race P net picks s = settle_all P net (if picks = [] then [0] else picks) s"

text \<open>
  The outer loop, run against a schedule: one list of picks for every \<open>await\<close>. The
  function has returned (\<open>Returns\<close>), or the schedule is used up while the loop is
  waiting (\<open>StillRunning\<close>), or it never returns: the loop spins without admitting
  anything (a limit of 0 with a queue that is not empty), or an extraction never ends.
\<close>

datatype run = Returns sched | StillRunning sched | NeverReturns

fun main_loop ::
  "platform \<Rightarrow> network \<Rightarrow> nat \<Rightarrow> string \<Rightarrow> string \<Rightarrow> nat list list \<Rightarrow> sched \<Rightarrow> run" where
  "main_loop P net limit outputDir base schedule s =
     (if queue s = [] \<and> inProgress s = [] then Returns s
      else (let s1 = fill P limit outputDir base s in
            if inProgress s1 = [] then (if queue s1 = [] then Returns s1 else NeverReturns)
            else (case schedule of
                    [] \<Rightarrow> StillRunning s1
                  | picks # rest \<Rightarrow>
                      (case await_race P net picks s1 of
                         None \<Rightarrow> NeverReturns
                       | Some s2 \<Rightarrow> main_loop P net limit outputDir base rest s2))))"

declare main_loop.simps [simp del]

definition initial_sched :: "asset list \<Rightarrow> world \<Rightarrow> sched" where
  "initial_sched assets w =
     \<lparr>queue = assets, inProgress = [], downloaded = [], results = [], calls = [], peak = 0,
      sw = w\<rparr>"

definition downloadAssetsWithConcurrency ::
  "platform \<Rightarrow> network \<Rightarrow> nat \<Rightarrow> asset list \<Rightarrow> string \<Rightarrow> string \<Rightarrow> nat list list \<Rightarrow> world
     \<Rightarrow> run" where
  "downloadAssetsWithConcurrency P net limit assets outputDir base schedule w =
     main_loop P net limit outputDir base schedule (initial_sched assets w)"

text \<open>The \<open>url\<close> field of a result, and the assets that \<open>downloadAsset\<close> does not give up
  at once: those with a local path that is neither \<open>null\<close> nor empty.\<close>

definition result_url :: "download_result \<Rightarrow> asset" where
  "result_url r = (case r of Cached u p \<Rightarrow> u | Downloaded u p a \<Rightarrow> u | Failed u e \<Rightarrow> u)"

definition classifiable :: "platform \<Rightarrow> string \<Rightarrow> asset \<Rightarrow> bool" where
  "classifiable P base a =
     (case getLocalPath P (js_String a) base of None \<Rightarrow> False | Some localPath \<Rightarrow> localPath \<noteq> [])"


section \<open>Theorems\<close>

subsection \<open>fetchWithRetry\<close>






subsection \<open>getLocalPath\<close>

lemma simple_URL_file_v1:
  "URL_new simple_URL ''https://h.example/app/file.js?version=1'' None =
     Some \<lparr>href = ''https://h.example/app/file.js?version=1'', host = ''h.example'',
           pathname = ''/app/file.js'', search = ''?version=1''\<rparr>"
  by code_simp

lemma simple_URL_file_v2:
  "URL_new simple_URL ''https://h.example/app/file.js?version=2'' None =
     Some \<lparr>href = ''https://h.example/app/file.js?version=2'', host = ''h.example'',
           pathname = ''/app/file.js'', search = ''?version=2''\<rparr>"
  by code_simp

lemma simple_URL_base_xy:
  "URL_new simple_URL ''https://h.example/x/y/'' None =
     Some \<lparr>href = ''https://h.example/x/y/'', host = ''h.example'',
           pathname = ''/x/y/'', search = []\<rparr>"
  by code_simp

lemma query_hash_version:
  "query_hash ''?version=1'' = ''P3ZlcnNp''" "query_hash ''?version=2'' = ''P3ZlcnNp''"
  by code_simp+

lemma path_parts_app_file:
  "path_extname ''app/file.js'' = ''.js''"
  "path_basename ''app/file.js'' ''.js'' = ''file''"
  "path_dirname ''app/file.js'' = ''app''"
  "path_join [''app'', ''file_P3ZlcnNp.js''] = ''app/file_P3ZlcnNp.js''"
  by code_simp+

text \<open>
  C3 at the failing input. The base URL is \<open>https://h.example/x/y/\<close>; the two asset URLs
  are same-origin, have the path \<open>/app/file.js\<close> and the distinct query strings
  \<open>?version=1\<close> and \<open>?version=2\<close>. The eight base64 characters kept of the query
  cover its first six bytes only (\<open>?versi\<close>), so both URLs are classified to
  \<open>app/file_P3ZlcnNp.js\<close>.
\<close>

theorem getLocalPath_query_collision:
  "getLocalPath simple_URL ''https://h.example/app/file.js?version=1'' ''https://h.example/x/y/''
     = Some ''app/file_P3ZlcnNp.js'' \<and>
   getLocalPath simple_URL ''https://h.example/app/file.js?version=2'' ''https://h.example/x/y/''
     = Some ''app/file_P3ZlcnNp.js''"
  by (simp add: getLocalPath_def simple_URL_file_v1 simple_URL_file_v2 simple_URL_base_xy
      strip_leading_slashes_def slash_def query_hash_version path_parts_app_file)

subsection \<open>downloadBookPages\<close>














subsection \<open>The matcher\<close>

lemma in_concat_map_prod:
  "x \<in> set (concat (map (\<lambda>(a, b). f a b) xs)) \<longleftrightarrow> (\<exists>a b. (a, b) \<in> set xs \<and> x \<in> set (f a b))"
  by auto

lemma ms_suffix:
  "(s', k') \<in> set (ms r s k) \<Longrightarrow> suffix s' s"
proof (induction r s k arbitrary: s' k' rule: ms.induct)
  case (1 c s k)
  then show ?case by (cases s) (simp_all add: ms.simps suffix_Cons split: if_splits)
next
  case (2 cs s k)
  then show ?case by (cases s) (simp_all add: ms.simps suffix_Cons split: if_splits)
next
  case (3 cs s k)
  then show ?case by (cases s) (simp_all add: ms.simps suffix_Cons split: if_splits)
next
  case (4 s k)
  then show ?case by (cases s) (simp_all add: ms.simps suffix_Cons split: if_splits)
next
  case (5 s k)
  then show ?case by (simp add: ms.simps)
next
  case (6 s k)
  then show ?case by (simp add: ms.simps split: if_splits)
next
  case (7 a b s k)
  from "7.prems" obtain s1 k1 where 1: "(s1, k1) \<in> set (ms a s k)" and 2: "(s', k') \<in> set (ms b s1 k1)"
    unfolding ms.simps(7) in_concat_map_prod by blast
  from "7.IH"(1)[OF 1] "7.IH"(2)[OF 1 refl 2] show ?case
    by (rule suffix_order.trans[rotated])
next
  case (8 a b s k)
  then show ?case by (auto simp: ms.simps(8))
next
  case (9 a s k)
  from "9.prems" have "(s', k') = (s, k) \<or>
     (\<exists>s1 k1. (s1, k1) \<in> set (ms a s k) \<and>
         (s', k') \<in> set (if length s1 < length s then ms (Star a) s1 k1 else []))"
    unfolding ms.simps(9)[of a s k] set_append in_concat_map_prod by auto
  then show ?case
  proof
    assume "(s', k') = (s, k)"
    then show ?thesis by simp
  next
    assume "\<exists>s1 k1. (s1, k1) \<in> set (ms a s k) \<and>
         (s', k') \<in> set (if length s1 < length s then ms (Star a) s1 k1 else [])"
    then obtain s1 k1 where 1: "(s1, k1) \<in> set (ms a s k)"
      and 2: "(s', k') \<in> set (if length s1 < length s then ms (Star a) s1 k1 else [])"
      by blast
    from 2 have lt: "length s1 < length s" and 3: "(s', k') \<in> set (ms (Star a) s1 k1)"
      by (simp_all split: if_splits)
    from "9.IH"(1)[OF 1] "9.IH"(2)[OF 1 refl lt 3] show ?thesis
      by (rule suffix_order.trans[rotated])
  qed
next
  case (10 a s k)
  from "10.prems" obtain s1 k1 where 1: "(s1, k1) \<in> set (ms a s k)"
    and 2: "(s', k') \<in> set (if length s1 < length s then ms (Star a) s1 k1 else [(s1, k1)])"
    unfolding ms.simps(10) in_concat_map_prod by blast
  show ?case
  proof (cases "length s1 < length s")
    case True
    with 2 have 3: "(s', k') \<in> set (ms (Star a) s1 k1)" by simp
    from "10.IH"(1)[OF 1] "10.IH"(2)[OF 1 refl True 3] show ?thesis
      by (rule suffix_order.trans[rotated])
  next
    case False
    with 2 have "s' = s1" by simp
    with "10.IH"(1)[OF 1] show ?thesis by simp
  qed
next
  case (11 a s k)
  then show ?case by (auto simp: ms.simps(11))
next
  case (12 n a s k)
  then show ?case by (auto simp: ms.simps(12))
qed

lemma ms_shorter:
  "(s', k') \<in> set (ms r s k) \<Longrightarrow> \<not> nullable r \<Longrightarrow> length s' < length s"
proof (induction r s k arbitrary: s' k' rule: ms.induct)
  case (1 c s k)
  then show ?case by (cases s) (simp_all add: ms.simps split: if_splits)
next
  case (2 cs s k)
  then show ?case by (cases s) (simp_all add: ms.simps split: if_splits)
next
  case (3 cs s k)
  then show ?case by (cases s) (simp_all add: ms.simps split: if_splits)
next
  case (4 s k)
  then show ?case by (cases s) (simp_all add: ms.simps split: if_splits)
next
  case (7 a b s k)
  from "7.prems"(1) obtain s1 k1 where 1: "(s1, k1) \<in> set (ms a s k)"
    and 2: "(s', k') \<in> set (ms b s1 k1)"
    unfolding ms.simps(7) in_concat_map_prod by blast
  from ms_suffix[OF 1] ms_suffix[OF 2] have le: "length s1 \<le> length s" "length s' \<le> length s1"
    by (simp_all add: suffix_length_le)
  from "7.prems"(2) have "\<not> nullable a \<or> \<not> nullable b" by simp
  then show ?case
  proof
    assume "\<not> nullable a"
    from "7.IH"(1)[OF 1 this] le show ?thesis by simp
  next
    assume "\<not> nullable b"
    from "7.IH"(2)[OF 1 refl 2 this] le show ?thesis by simp
  qed
next
  case (8 a b s k)
  then show ?case by (auto simp: ms.simps(8))
next
  case (10 a s k)
  from "10.prems"(1) obtain s1 k1 where 1: "(s1, k1) \<in> set (ms a s k)"
    and 2: "(s', k') \<in> set (if length s1 < length s then ms (Star a) s1 k1 else [(s1, k1)])"
    unfolding ms.simps(10) in_concat_map_prod by blast
  from "10.prems"(2) have na: "\<not> nullable a" by simp
  from "10.IH"(1)[OF 1 na] have lt: "length s1 < length s" .
  with 2 have "(s', k') \<in> set (ms (Star a) s1 k1)" by simp
  from ms_suffix[OF this] have "length s' \<le> length s1" by (rule suffix_length_le)
  with lt show ?case by simp
next
  case (12 n a s k)
  then show ?case by (auto simp: ms.simps(12))
qed simp_all

lemma match_here_in_ms:
  "match_here r s = Some (k, rest) \<Longrightarrow> (rest, k) \<in> set (ms r s [])"
  by (auto simp: match_here_def split: list.splits)

lemma match_here_suffix:
  "match_here r s = Some (k, rest) \<Longrightarrow> suffix rest s"
  by (rule ms_suffix[OF match_here_in_ms])

lemma match_here_shorter:
  "match_here r s = Some (k, rest) \<Longrightarrow> \<not> nullable r \<Longrightarrow> length rest < length s"
  by (rule ms_shorter[OF match_here_in_ms])

lemma take_suffix_append:
  "suffix rest s \<Longrightarrow> take (length s - length rest) s @ rest = s"
  by (auto simp: suffix_def)

lemma scan_concat: "concat (map piece_text (scan r s)) = s"
proof (induction r s rule: scan.induct)
  case (1 r s)
  show ?case
  proof (cases "match_here r s")
    case None
    show ?thesis
    proof (cases s)
      case Nil
      with None show ?thesis by (simp add: scan.simps[of r "[]"])
    next
      case (Cons c cs)
      with None "1.IH"(1)[OF None Cons] show ?thesis
        by (simp add: scan.simps[of r "c # cs"] piece_text_def)
    qed
  next
    case (Some a)
    obtain k rest where a: "a = (k, rest)" by (cases a)
    with Some have m: "match_here r s = Some (k, rest)" by simp
    show ?thesis
    proof (cases "length rest < length s")
      case True
      from "1.IH"(2)[OF m refl True] take_suffix_append[OF match_here_suffix[OF m]] m True
      show ?thesis
        by (simp add: scan.simps[of r s] piece_text_def)
    next
      case False
      from match_here_suffix[OF m] have "length rest \<le> length s" by (rule suffix_length_le)
      show ?thesis
      proof (cases s)
        case Nil
        with m False show ?thesis by (simp add: scan.simps[of r "[]"] piece_text_def)
      next
        case (Cons c cs)
        with m False "1.IH"(3)[OF m refl False Cons] show ?thesis
          by (simp add: scan.simps[of r "c # cs"] piece_text_def)
      qed
    qed
  qed
qed

lemma scan_found_nonempty:
  "\<not> nullable r \<Longrightarrow> Found m k \<in> set (scan r s) \<Longrightarrow> m \<noteq> []"
proof (induction r s rule: scan.induct)
  case (1 r s)
  show ?case
  proof (cases "match_here r s")
    case None
    show ?thesis
    proof (cases s)
      case Nil
      with None "1.prems" show ?thesis by (simp add: scan.simps[of r "[]"])
    next
      case (Cons c cs)
      with None "1.prems"(2) have "Found m k \<in> set (scan r cs)"
        by (simp add: scan.simps[of r "c # cs"])
      from "1.IH"(1)[OF None Cons "1.prems"(1) this] show ?thesis .
    qed
  next
    case (Some a)
    obtain k1 rest where a: "a = (k1, rest)" by (cases a)
    with Some have mh: "match_here r s = Some (k1, rest)" by simp
    from match_here_shorter[OF mh "1.prems"(1)] have lt: "length rest < length s" .
    from "1.prems"(2) mh lt
    have "Found m k = Found (take (length s - length rest) s) k1 \<or> Found m k \<in> set (scan r rest)"
      by (simp add: scan.simps[of r s])
    then show ?thesis
    proof
      assume "Found m k = Found (take (length s - length rest) s) k1"
      with lt show ?thesis by auto
    next
      assume "Found m k \<in> set (scan r rest)"
      from "1.IH"(2)[OF mh refl lt "1.prems"(1) this] show ?thesis .
    qed
  qed
qed

lemma exec_all_total:
  assumes "\<not> nullable r"
  shows "\<exists>matches. exec_all r s = Some matches"
proof -
  have "\<not> list_ex (\<lambda>p. case p of Found m k \<Rightarrow> m = [] | Text c \<Rightarrow> False) (scan r s)"
    using scan_found_nonempty[OF assms] by (auto simp: list_ex_iff split: piece.splits)
  then show ?thesis by (simp add: exec_all_def Let_def)
qed

lemma ms_no_groups:
  "(s', k') \<in> set (ms r s k) \<Longrightarrow> no_groups r \<Longrightarrow> k' = k"
proof (induction r s k arbitrary: s' k' rule: ms.induct)
  case (1 c s k)
  then show ?case by (cases s) (simp_all add: ms.simps split: if_splits)
next
  case (2 cs s k)
  then show ?case by (cases s) (simp_all add: ms.simps split: if_splits)
next
  case (3 cs s k)
  then show ?case by (cases s) (simp_all add: ms.simps split: if_splits)
next
  case (4 s k)
  then show ?case by (cases s) (simp_all add: ms.simps split: if_splits)
next
  case (5 s k)
  then show ?case by (simp add: ms.simps)
next
  case (6 s k)
  then show ?case by (simp add: ms.simps split: if_splits)
next
  case (7 a b s k)
  from "7.prems"(1) obtain s1 k1 where 1: "(s1, k1) \<in> set (ms a s k)"
    and 2: "(s', k') \<in> set (ms b s1 k1)"
    unfolding ms.simps(7) in_concat_map_prod by blast
  from "7.prems"(2) have n: "no_groups a" "no_groups b" by simp_all
  from "7.IH"(1)[OF 1 n(1)] "7.IH"(2)[OF 1 refl 2 n(2)] show ?case by simp
next
  case (8 a b s k)
  then show ?case by (auto simp: ms.simps(8))
next
  case (9 a s k)
  from "9.prems"(1) have "(s', k') = (s, k) \<or>
     (\<exists>s1 k1. (s1, k1) \<in> set (ms a s k) \<and>
         (s', k') \<in> set (if length s1 < length s then ms (Star a) s1 k1 else []))"
    unfolding ms.simps(9)[of a s k] set_append in_concat_map_prod by auto
  then show ?case
  proof
    assume "(s', k') = (s, k)"
    then show ?thesis by simp
  next
    assume "\<exists>s1 k1. (s1, k1) \<in> set (ms a s k) \<and>
         (s', k') \<in> set (if length s1 < length s then ms (Star a) s1 k1 else [])"
    then obtain s1 k1 where 1: "(s1, k1) \<in> set (ms a s k)"
      and 2: "(s', k') \<in> set (if length s1 < length s then ms (Star a) s1 k1 else [])"
      by blast
    from 2 have lt: "length s1 < length s" and 3: "(s', k') \<in> set (ms (Star a) s1 k1)"
      by (simp_all split: if_splits)
    from "9.prems"(2) have n: "no_groups a" by simp
    from "9.IH"(1)[OF 1 n] "9.IH"(2)[OF 1 refl lt 3 "9.prems"(2)] show ?thesis by simp
  qed
next
  case (10 a s k)
  from "10.prems"(1) obtain s1 k1 where 1: "(s1, k1) \<in> set (ms a s k)"
    and 2: "(s', k') \<in> set (if length s1 < length s then ms (Star a) s1 k1 else [(s1, k1)])"
    unfolding ms.simps(10) in_concat_map_prod by blast
  from "10.prems"(2) have n: "no_groups a" "no_groups (Star a)" by simp_all
  show ?case
  proof (cases "length s1 < length s")
    case True
    with 2 have 3: "(s', k') \<in> set (ms (Star a) s1 k1)" by simp
    from "10.IH"(1)[OF 1 n(1)] "10.IH"(2)[OF 1 refl True 3 n(2)] show ?thesis by simp
  next
    case False
    with 2 have "k' = k1" by simp
    with "10.IH"(1)[OF 1 n(1)] show ?thesis by simp
  qed
next
  case (11 a s k)
  then show ?case by (auto simp: ms.simps(11))
next
  case (12 n a s k)
  then show ?case by simp
qed

lemma ms_Group:
  "(s', k') \<in> set (ms (Group n a) s k) \<Longrightarrow> no_groups a \<Longrightarrow>
   suffix s' s \<and> k' = (n, take (length s - length s') s) # k"
proof -
  assume m: "(s', k') \<in> set (ms (Group n a) s k)" and n: "no_groups a"
  from m obtain k0 where 1: "(s', k0) \<in> set (ms a s k)"
    and 2: "k' = (n, take (length s - length s') s) # k0"
    by (auto simp: ms.simps(12))
  from ms_no_groups[OF 1 n] ms_suffix[OF 1] 2 show ?thesis by simp
qed

lemma scan_found_match:
  "Found m k \<in> set (scan r s) \<Longrightarrow>
   \<exists>s0 rest. match_here r s0 = Some (k, rest) \<and> suffix rest s0
     \<and> (m = take (length s0 - length rest) s0 \<or> m = [])"
proof (induction r s rule: scan.induct)
  case (1 r s)
  show ?case
  proof (cases "match_here r s")
    case None
    show ?thesis
    proof (cases s)
      case Nil
      with None "1.prems" show ?thesis by (simp add: scan.simps[of r "[]"])
    next
      case (Cons c cs)
      with None "1.prems" have "Found m k \<in> set (scan r cs)"
        by (simp add: scan.simps[of r "c # cs"])
      from "1.IH"(1)[OF None Cons this] show ?thesis .
    qed
  next
    case (Some a)
    obtain k1 rest where a: "a = (k1, rest)" by (cases a)
    with Some have mh: "match_here r s = Some (k1, rest)" by simp
    show ?thesis
    proof (cases "length rest < length s")
      case True
      from "1.prems" mh True
      have "Found m k = Found (take (length s - length rest) s) k1 \<or> Found m k \<in> set (scan r rest)"
        by (simp add: scan.simps[of r s])
      then show ?thesis
      proof
        assume "Found m k = Found (take (length s - length rest) s) k1"
        with mh match_here_suffix[OF mh] show ?thesis by auto
      next
        assume "Found m k \<in> set (scan r rest)"
        from "1.IH"(2)[OF mh refl True this] show ?thesis .
      qed
    next
      case False
      show ?thesis
      proof (cases s)
        case Nil
        with "1.prems" mh False have "m = []" "k = k1"
          by (simp_all add: scan.simps[of r "[]"])
        with mh match_here_suffix[OF mh] show ?thesis by auto
      next
        case (Cons c cs)
        with "1.prems" mh False
        have "Found m k = Found [] k1 \<or> Found m k \<in> set (scan r cs)"
          by (simp add: scan.simps[of r "c # cs"])
        then show ?thesis
        proof
          assume "Found m k = Found [] k1"
          with mh match_here_suffix[OF mh] show ?thesis by auto
        next
          assume "Found m k \<in> set (scan r cs)"
          from "1.IH"(3)[OF mh refl False Cons this] show ?thesis .
        qed
      qed
    qed
  qed
qed

subsection \<open>extractAssets and extractCssAssets\<close>

lemma Str_not_nullable: "s \<noteq> [] \<Longrightarrow> \<not> nullable (Str s)"
  by (induction s rule: Str.induct) simp_all

lemma extract_loops_not_nullable:
  "\<forall>rk \<in> set extractAssets_loops. \<not> nullable (fst rk)"
  "\<forall>rk \<in> set extractCssAssets_loops. \<not> nullable (fst rk)"
  by (simp_all add: extractAssets_loops_def extractCssAssets_loops_def cssRegex_def jsRegex_def
      imgRegex_def bgRegex_def fontRegex_def jsonRegex_def xmlRegex_def swfRegex_def
      audioRegex_def videoRegex_def urlRegex_def importRegex_def quotedRegex_def)

lemma set_add_distinct: "distinct xs \<Longrightarrow> distinct (set_add x xs)"
  by (simp add: set_add_def)

lemma set_add_set: "set (set_add x xs) = insert x (set xs)"
  by (auto simp: set_add_def)

lemma resolveUrl_cases:
  "resolveUrl P ref base = None
   \<or> (\<exists>u. URL_new P ref (Some base) = Some u \<and> resolveUrl P ref base = Some (href u))"
  by (cases "URL_new P ref (Some base)") (simp_all add: resolveUrl_def)

lemma add_matches_invariant:
  assumes "distinct acc"
    and "\<forall>a \<in> set acc. a = None \<or> (\<exists>ref u. URL_new P ref (Some base) = Some u \<and> a = Some (href u))"
  shows "distinct (foldl (\<lambda>acc k. if keep (group k 1)
                                   then set_add (resolveUrl P (group k 1) base) acc else acc)
                         acc matches)
       \<and> (\<forall>a \<in> set (foldl (\<lambda>acc k. if keep (group k 1)
                                   then set_add (resolveUrl P (group k 1) base) acc else acc)
                         acc matches).
            a = None \<or> (\<exists>ref u. URL_new P ref (Some base) = Some u \<and> a = Some (href u)))"
  using assms
proof (induction matches arbitrary: acc)
  case Nil
  then show ?case by simp
next
  case (Cons k ks)
  let ?acc = "if keep (group k 1) then set_add (resolveUrl P (group k 1) base) acc else acc"
  have d: "distinct ?acc"
    using Cons.prems(1) by (simp add: set_add_distinct)
  have q: "\<forall>a \<in> set ?acc. a = None \<or> (\<exists>ref u. URL_new P ref (Some base) = Some u \<and> a = Some (href u))"
    using Cons.prems(2) resolveUrl_cases[of P "group k 1" base]
    by (auto simp: set_add_set)
  from Cons.IH[OF d q] show ?case by simp
qed

lemma exec_loop_invariant:
  assumes "\<not> nullable (fst rk)" and "distinct acc"
    and "\<forall>a \<in> set acc. a = None \<or> (\<exists>ref u. URL_new P ref (Some base) = Some u \<and> a = Some (href u))"
  shows "\<exists>acc'. exec_loop P content base (Some acc) rk = Some acc' \<and> distinct acc'
       \<and> (\<forall>a \<in> set acc'. a = None \<or> (\<exists>ref u. URL_new P ref (Some base) = Some u \<and> a = Some (href u)))"
proof -
  from exec_all_total[OF assms(1)] obtain matches where m: "exec_all (fst rk) content = Some matches"
    by blast
  from add_matches_invariant[OF assms(2,3), of "snd rk" matches] m show ?thesis
    by (simp add: exec_loop_def)
qed

lemma exec_loops_invariant:
  assumes "\<forall>rk \<in> set loops. \<not> nullable (fst rk)" and "distinct acc"
    and "\<forall>a \<in> set acc. a = None \<or> (\<exists>ref u. URL_new P ref (Some base) = Some u \<and> a = Some (href u))"
  shows "\<exists>acc'. foldl (exec_loop P content base) (Some acc) loops = Some acc' \<and> distinct acc'
       \<and> (\<forall>a \<in> set acc'. a = None \<or> (\<exists>ref u. URL_new P ref (Some base) = Some u \<and> a = Some (href u)))"
  using assms
proof (induction loops arbitrary: acc)
  case Nil
  then show ?case by simp
next
  case (Cons rk loops)
  from Cons.prems(1) have n: "\<not> nullable (fst rk)" by simp
  from exec_loop_invariant[OF n Cons.prems(2,3), of content]
  obtain acc1 where 1: "exec_loop P content base (Some acc) rk = Some acc1" "distinct acc1"
    "\<forall>a \<in> set acc1. a = None \<or> (\<exists>ref u. URL_new P ref (Some base) = Some u \<and> a = Some (href u))"
    by blast
  from Cons.prems(1) have "\<forall>rk \<in> set loops. \<not> nullable (fst rk)" by simp
  from Cons.IH[OF this 1(2,3)] 1(1) show ?case by simp
qed

lemma extractCssAssets_total:
  "\<exists>assets. extractCssAssets P css base = Some assets"
  using exec_loops_invariant[OF extract_loops_not_nullable(2), of "[]" P base css]
  by (auto simp: extractCssAssets_def)






subsection \<open>downloadAsset\<close>

lemma js_String_simps [simp]: "js_String (Some s) = s" "js_String None = ''null''"
  by (simp_all add: js_String_def)








subsection \<open>rewriteUrls\<close>

lemma htmlUrlPattern_groups:
  assumes "match_here htmlUrlPattern s = Some (k, rest)"
  shows "take (length s - length rest) s = group k 1 @ group k 2 @ group k 3
       \<and> group k 2 \<noteq> []"
proof -
  let ?A = "Seqs [Alts [Str ''src'', Str ''href'', Str ''data-src'', Str ''data-original''],
                  Star Space, Lit CHR ''='', Star Space, OneOf quotes]"
  let ?B = "Plus (NoneOf quotes)"
  let ?C = "OneOf quotes"
  have pat: "htmlUrlPattern = Seq (Group 1 ?A) (Seq (Group 2 ?B) (Group 3 ?C))"
    by (simp add: htmlUrlPattern_def)
  have ng: "no_groups ?A" "no_groups ?B" "no_groups ?C"
    by simp_all
  from assms have "(rest, k) \<in> set (ms htmlUrlPattern s [])"
    by (rule match_here_in_ms)
  then obtain s1 k1 s2 k2 where 1: "(s1, k1) \<in> set (ms (Group 1 ?A) s [])"
    and 2: "(s2, k2) \<in> set (ms (Group 2 ?B) s1 k1)"
    and 3: "(rest, k) \<in> set (ms (Group 3 ?C) s2 k2)"
    unfolding pat ms.simps(7) in_concat_map_prod by blast
  from ms_Group[OF 1 ng(1)] have a: "suffix s1 s" "k1 = [(1, take (length s - length s1) s)]"
    by simp_all
  from ms_Group[OF 2 ng(2)] have b: "suffix s2 s1" "k2 = (2, take (length s1 - length s2) s1) # k1"
    by simp_all
  from ms_Group[OF 3 ng(3)] have c: "suffix rest s2" "k = (3, take (length s2 - length rest) s2) # k2"
    by simp_all
  from a(1) obtain p1 where p1: "s = p1 @ s1" by (auto simp: suffix_def)
  from b(1) obtain p2 where p2: "s1 = p2 @ s2" by (auto simp: suffix_def)
  from c(1) obtain p3 where p3: "s2 = p3 @ rest" by (auto simp: suffix_def)
  have g: "group k 1 = p1" "group k 2 = p2" "group k 3 = p3"
    using a(2) b(2) c(2) p1 p2 p3 by (simp_all add: group_def)
  have "\<not> nullable (Group 2 ?B)" by simp
  from ms_shorter[OF 2 this] p2 have "p2 \<noteq> []" by auto
  with g p1 p2 p3 show ?thesis by simp
qed

lemma scan_html_groups:
  assumes "Found m k \<in> set (scan htmlUrlPattern content)"
  shows "m = group k 1 @ group k 2 @ group k 3 \<and> group k 2 \<noteq> []"
proof -
  from scan_found_match[OF assms] obtain s0 rest
    where mh: "match_here htmlUrlPattern s0 = Some (k, rest)"
      and m: "m = take (length s0 - length rest) s0 \<or> m = []"
    by blast
  have nn: "\<not> nullable htmlUrlPattern" by (simp add: htmlUrlPattern_def)
  from scan_found_nonempty[OF nn assms] m have "m = take (length s0 - length rest) s0" by simp
  with htmlUrlPattern_groups[OF mh] show ?thesis by simp
qed
text \<open>
  C7. The HTML pass cuts the content into the characters outside every match and the
  matches of the attribute pattern, and replaces each match by what the replacer
  returns. Every match is its three groups in a row: the attribute prefix, the value,
  the closing quote. If the value does not resolve to an absolute URL, or the URL does
  not classify to a local path, the replacer returns the matched text itself; and
  whenever it returns anything else, both steps have succeeded and the result is the
  prefix, the local path and the closing quote.
\<close>

theorem rewriteUrls_html_fail_open:
  "concat (map piece_text (scan htmlUrlPattern content)) = content
   \<and> rewriteUrls P content base True
       = concat (map (\<lambda>p. case p of Text c \<Rightarrow> [c] | Found m k \<Rightarrow> html_replacer P base m k)
                     (scan htmlUrlPattern content))
   \<and> (\<forall>m k. Found m k \<in> set (scan htmlUrlPattern content) \<longrightarrow>
         m = group k 1 @ group k 2 @ group k 3
         \<and> (resolveUrl P (group k 2) base = None
              \<or> (\<exists>a. resolveUrl P (group k 2) base = Some a \<and> getLocalPath P a base = None)
            \<longrightarrow> html_replacer P base m k = m)
         \<and> (html_replacer P base m k \<noteq> m
            \<longrightarrow> (\<exists>a localPath. resolveUrl P (group k 2) base = Some a
                    \<and> getLocalPath P a base = Some localPath
                    \<and> html_replacer P base m k = group k 1 @ localPath @ group k 3)))"
proof (intro conjI allI impI)
  show "concat (map piece_text (scan htmlUrlPattern content)) = content"
    by (rule scan_concat)
  show "rewriteUrls P content base True
       = concat (map (\<lambda>p. case p of Text c \<Rightarrow> [c] | Found m k \<Rightarrow> html_replacer P base m k)
                     (scan htmlUrlPattern content))"
    by (simp add: rewriteUrls_def replace_all_def)
next
  fix m k assume "Found m k \<in> set (scan htmlUrlPattern content)"
  then show "m = group k 1 @ group k 2 @ group k 3"
    using scan_html_groups by blast
next
  fix m k
  assume "resolveUrl P (group k 2) base = None
          \<or> (\<exists>a. resolveUrl P (group k 2) base = Some a \<and> getLocalPath P a base = None)"
  then show "html_replacer P base m k = m"
    by (auto simp: html_replacer_def)
next
  fix m k
  assume "html_replacer P base m k \<noteq> m"
  then show "\<exists>a localPath. resolveUrl P (group k 2) base = Some a
                    \<and> getLocalPath P a base = Some localPath
                    \<and> html_replacer P base m k = group k 1 @ localPath @ group k 3"
    by (auto simp: html_replacer_def split: option.splits if_splits)
qed

lemma example_scan_anchor:
  \<open>scan htmlUrlPattern ''<a href="#t">''
     = [Text CHR ''<'', Text CHR ''a'', Text CHR '' '',
        Found ''href="#t"'' [(3, [CHR 0x22]), (2, ''#t''), (1, ''href="'')],
        Text CHR ''>'']\<close>
  by code_simp

theorem rewriteUrls_html_fail_open_witness:
  \<open>rewriteUrls simple_URL ''<a href="#t">'' ''http://h/x/y/'' True = ''<a href="#t">''\<close>
proof -
  let ?c = \<open>''<a href="#t">''\<close>
  let ?m = \<open>''href="#t"''\<close>
  let ?k = \<open>[(3, [CHR 0x22]), (2, ''#t''), (1, ''href="'')] :: captures\<close>
  note th = rewriteUrls_html_fail_open[of ?c simple_URL "''http://h/x/y/''"]
  have f: "Found ?m ?k \<in> set (scan htmlUrlPattern ?c)"
    unfolding example_scan_anchor by simp
  have r: "resolveUrl simple_URL (group ?k 2) ''http://h/x/y/'' = None"
    by (simp add: resolveUrl_def group_def startsWith_def)
  from th f r have keep: "html_replacer simple_URL ''http://h/x/y/'' ?m ?k = ?m"
    by blast
  from th have "rewriteUrls simple_URL ?c ''http://h/x/y/'' True
       = concat (map (\<lambda>p. case p of Text c \<Rightarrow> [c]
                            | Found m k \<Rightarrow> html_replacer simple_URL ''http://h/x/y/'' m k)
                     (scan htmlUrlPattern ?c))"
    by blast
  also have "\<dots> = ?c"
    unfolding example_scan_anchor
    by (simp only: list.map piece.case concat.simps keep append.simps)
  finally show ?thesis .
qed








subsection \<open>rewriteJsonUrls\<close>

text \<open>
  C8. If the content does not parse as JSON, \<open>rewriteJsonUrls\<close> returns the content
  itself. The function is total: whatever is thrown inside its \<open>try\<close> block is caught.
\<close>

theorem rewriteJsonUrls_unparseable:
  "JSON_parse P content = None \<Longrightarrow> rewriteJsonUrls P content base info = content"
  by (simp add: rewriteJsonUrls_def)

lemma example_not_json: "JSON_parse simple_URL ''{oops'' = None"
  by code_simp

theorem rewriteJsonUrls_unparseable_witness:
  "rewriteJsonUrls simple_URL ''{oops'' ''http://h/x/y/c.json'' short_book = ''{oops''"
  using rewriteJsonUrls_unparseable[OF example_not_json] .





end
